theory Spec2Isabelle
  imports Main
begin

section \<open>The index-node gRPC client (internal/distributed/indexnode/client/client.go)\<close>

text \<open>
  \<^verbatim>\<open>time.Duration\<close> counts nanoseconds in a signed 64-bit integer; the durations of this
  file (200 ms, 500 ms) are far from its range, so the model uses \<open>int\<close>.
  A Go \<^verbatim>\<open>error\<close> is modelled by its message, and a possibly-nil error by
  \<open>error option\<close> with \<open>None\<close> for \<^verbatim>\<open>nil\<close>.
\<close>

type_synonym duration = int

definition Millisecond :: duration where
  "Millisecond = 1000000"

type_synonym error = string

text \<open>
  \<^verbatim>\<open>indexpb.NewIndexNodeClient(c.conn)\<close> wraps the connection pointer it is given
  (which may be nil) in a client stub.
\<close>

datatype 'c IndexNodeClient = NewIndexNodeClient "'c option"

text \<open>
  The struct \<^verbatim>\<open>Client\<close>. The field \<^verbatim>\<open>ctx\<close> is always \<^verbatim>\<open>context.Background()\<close>
  and is left out. Pointers that may be nil are options.
\<close>

record 'c Client =
  grpcClient :: "'c IndexNodeClient option"
  conn :: "'c option"
  address :: string
  timeout :: duration
  reconnTry :: int
  recallTry :: int

definition NewClient :: "string \<Rightarrow> duration \<Rightarrow> error + 'c Client" where
  "NewClient addr tmo =
     (if addr = [] then Inl ''address is empty''
      else Inr \<lparr> grpcClient = None, conn = None, address = addr, timeout = tmo,
                 reconnTry = 10, recallTry = 3 \<rparr>)"

subsection \<open>The world outside the client\<close>

text \<open>
  Dialling, sleeping and the remote calls are effects. The state threaded through the
  model holds the client struct, the state \<open>net\<close> of whatever is outside the process
  (of an arbitrary type), and a history \<open>trace\<close> of what the run has done so far. The
  history is ghost state: the code never reads it, each operation appends its own
  event to it. A dial and an invocation of a closure are functions that return; a panic
  inside them (a closure run on a nil \<^verbatim>\<open>grpcClient\<close>) is outside the model.
\<close>

datatype 'r event =
    Dialed "error option"
  | Slept duration
  | Reconnected "error option"
  | Called 'r "error option"

record 'r history =
  trace :: "'r event list"

record ('c, 'w, 'r) world = "'r history" +
  client :: "'c Client"
  net :: 'w

definition log_event :: "'r event \<Rightarrow> ('r, 'z) history_scheme \<Rightarrow> ('r, 'z) history_scheme" where
  "log_event ev s = s\<lparr>trace := trace s @ [ev]\<rparr>"

text \<open>\<^verbatim>\<open>time.Sleep(d)\<close>.\<close>

definition sleep_for :: "duration \<Rightarrow> ('r, 'z) history_scheme \<Rightarrow> ('r, 'z) history_scheme" where
  "sleep_for d s = log_event (Slept d) s"

text \<open>
  \<^verbatim>\<open>grpc.DialContext(ctx, c.address, ...)\<close> under a context that expires after
  \<^verbatim>\<open>c.timeout\<close>: a parameter of the model, any function of the address, the timeout
  and the outside world that gives an error or a connection.
\<close>

type_synonym ('c, 'w) dialer = "string \<Rightarrow> duration \<Rightarrow> 'w \<Rightarrow> (error + 'c) \<times> 'w"

text \<open>
  The closure \<^verbatim>\<open>connectGrpcFunc\<close>, written twice in the source (in \<^verbatim>\<open>Init\<close> and in
  \<^verbatim>\<open>reconnect\<close>) with the same body up to the log message: dial, and on success
  store the connection in \<^verbatim>\<open>c.conn\<close>.
\<close>

definition connectGrpcFunc ::
  "('c, 'w) dialer \<Rightarrow> ('c, 'w, 'r) world \<Rightarrow> error option \<times> ('c, 'w, 'r) world" where
  "connectGrpcFunc dial s =
     (case dial (address (client s)) (timeout (client s)) (net s) of
        (Inl err, n') \<Rightarrow> (Some err, log_event (Dialed (Some err)) (s\<lparr>net := n'\<rparr>))
      | (Inr cn, n') \<Rightarrow>
          (None, log_event (Dialed None) (s\<lparr>client := (client s)\<lparr>conn := Some cn\<rparr>, net := n'\<rparr>)))"

subsection \<open>The retry helper\<close>

text \<open>
  Modelled from the spec: \<^verbatim>\<open>retry.Retry(attempts, sleep, fn)\<close> of
  \<^verbatim>\<open>internal/util/retry\<close>, which the client calls and which is not among the source
  files. The spec describes it as a bounded retry with a fixed interval that returns the
  first successful result or the last error after the bound: \<open>fn\<close> is tried, a nil
  error ends the retry at once, an error on the last permitted attempt is returned, and
  before every further attempt the helper sleeps for the interval. The spec does not say
  what a bound below one gives; the model then tries once. Both calls in the client pass
  a positive bound.
\<close>

fun Retry ::
  "nat \<Rightarrow> duration \<Rightarrow> (('r, 'z) history_scheme \<Rightarrow> error option \<times> ('r, 'z) history_scheme)
     \<Rightarrow> ('r, 'z) history_scheme \<Rightarrow> error option \<times> ('r, 'z) history_scheme" where
  "Retry attempts sleep fn s =
     (case fn s of
        (None, s') \<Rightarrow> (None, s')
      | (Some err, s') \<Rightarrow>
          (if attempts \<le> 1 then (Some err, s')
           else Retry (attempts - 1) sleep fn (sleep_for sleep s')))"

declare Retry.simps [simp del]

subsection \<open>Init, reconnect and recall\<close>

definition Init ::
  "('c, 'w) dialer \<Rightarrow> ('c, 'w, 'r) world \<Rightarrow> error option \<times> ('c, 'w, 'r) world" where
  "Init dial s =
     (case Retry 100000 (Millisecond * 200) (connectGrpcFunc dial) s of
        (Some err, s') \<Rightarrow> (Some err, s')
      | (None, s') \<Rightarrow>
          (None, s'\<lparr>client := (client s')
                      \<lparr>grpcClient := Some (NewIndexNodeClient (conn (client s')))\<rparr>\<rparr>))"

text \<open>
  \<^verbatim>\<open>reconnect\<close> retries the dial \<^verbatim>\<open>c.reconnTry\<close> times, 500 ms apart. Its outcome
  is appended to the history when it returns.
\<close>

definition reconnect ::
  "('c, 'w) dialer \<Rightarrow> ('c, 'w, 'r) world \<Rightarrow> error option \<times> ('c, 'w, 'r) world" where
  "reconnect dial s =
     (case Retry (nat (reconnTry (client s))) (500 * Millisecond) (connectGrpcFunc dial) s of
        (Some err, s') \<Rightarrow> (Some err, log_event (Reconnected (Some err)) s')
      | (None, s') \<Rightarrow>
          (None, log_event (Reconnected None)
                   (s'\<lparr>client := (client s')
                         \<lparr>grpcClient := Some (NewIndexNodeClient (conn (client s')))\<rparr>\<rparr>)))"

text \<open>
  The argument of \<^verbatim>\<open>recall\<close> is a closure \<^verbatim>\<open>func() (interface{}, error)\<close>. The four
  closures of the file call \<^verbatim>\<open>c.grpcClient\<close>, so a closure is a function of the client
  struct as it is when the closure runs and of the outside world; it returns a value,
  a possibly-nil error and the new outside world.
\<close>

type_synonym ('c, 'w, 'r) caller = "'c Client \<Rightarrow> 'w \<Rightarrow> ('r \<times> error option) \<times> 'w"

definition invoke ::
  "('c, 'w, 'r) caller \<Rightarrow> ('c, 'w, 'r) world \<Rightarrow> ('r \<times> error option) \<times> ('c, 'w, 'r) world" where
  "invoke caller s =
     (case caller (client s) (net s) of
        ((ret, err), n') \<Rightarrow> ((ret, err), log_event (Called ret err) (s\<lparr>net := n'\<rparr>)))"

text \<open>
  The loop \<^verbatim>\<open>for i := 0; i < c.recallTry; i++\<close> of \<^verbatim>\<open>recall\<close>. Nothing in its body
  writes \<^verbatim>\<open>i\<close> or \<^verbatim>\<open>c.recallTry\<close>, so it runs \<open>nat recallTry\<close> times unless it returns
  early; the first argument counts the iterations that remain. \<open>ret\<close> and \<open>err\<close> are
  the two local variables of \<^verbatim>\<open>recall\<close>.
\<close>

fun recall_loop ::
  "('c, 'w) dialer \<Rightarrow> ('c, 'w, 'r) caller \<Rightarrow> nat \<Rightarrow> 'r \<Rightarrow> error option \<Rightarrow> ('c, 'w, 'r) world
     \<Rightarrow> ('r \<times> error option) \<times> ('c, 'w, 'r) world" where
  "recall_loop dial caller 0 ret err s = ((ret, err), s)"
| "recall_loop dial caller (Suc n) ret err s =
     (case reconnect dial s of
        (Some e, s1) \<Rightarrow> recall_loop dial caller n ret (Some e) s1
      | (None, s1) \<Rightarrow>
          (case invoke caller s1 of
             ((ret', None), s2) \<Rightarrow> ((ret', None), s2)
           | ((ret', Some e), s2) \<Rightarrow> recall_loop dial caller n ret' (Some e) s2))"

definition recall ::
  "('c, 'w) dialer \<Rightarrow> ('c, 'w, 'r) caller \<Rightarrow> ('c, 'w, 'r) world
     \<Rightarrow> ('r \<times> error option) \<times> ('c, 'w, 'r) world" where
  "recall dial caller s =
     (case invoke caller s of
        ((ret, None), s1) \<Rightarrow> ((ret, None), s1)
      | ((ret, Some e), s1) \<Rightarrow>
          recall_loop dial caller (nat (recallTry (client s1))) ret (Some e) s1)"

subsection \<open>Reading a history\<close>

text \<open>The events a run from \<open>s\<close> to \<open>s'\<close> has appended.\<close>

definition new_events :: "('r, 'z) history_scheme \<Rightarrow> ('r, 'z) history_scheme \<Rightarrow> 'r event list" where
  "new_events s s' = drop (length (trace s)) (trace s')"

fun is_Called :: "'r event \<Rightarrow> bool" where
  "is_Called (Called r e) = True"
| "is_Called ev = False"

fun is_Reconnected :: "'r event \<Rightarrow> bool" where
  "is_Reconnected (Reconnected e) = True"
| "is_Reconnected ev = False"

fun event_error :: "'r event \<Rightarrow> error option" where
  "event_error (Dialed e) = e"
| "event_error (Slept d) = None"
| "event_error (Reconnected e) = e"
| "event_error (Called r e) = e"

text \<open>How often the closure was invoked, and how often \<^verbatim>\<open>reconnect\<close> was.\<close>

definition calls :: "'r event list \<Rightarrow> nat" where
  "calls evs = length (filter is_Called evs)"

definition reconnects :: "'r event list \<Rightarrow> nat" where
  "reconnects evs = length (filter is_Reconnected evs)"

definition failed_reconnects :: "'r event list \<Rightarrow> nat" where
  "failed_reconnects evs = length (filter (\<lambda>ev. is_Reconnected ev \<and> event_error ev \<noteq> None) evs)"

text \<open>
  The last error met in a history: the history is read in order, and every event that
  carries an error replaces what was remembered.
\<close>

definition last_error :: "'r event list \<Rightarrow> error option" where
  "last_error evs =
     foldl (\<lambda>acc ev. case event_error ev of None \<Rightarrow> acc | Some e \<Rightarrow> Some e) None evs"

text \<open>The value of the first invocation of the closure that returned a nil error.\<close>

fun first_success :: "'r event list \<Rightarrow> 'r option" where
  "first_success [] = None"
| "first_success (Called r None # evs) = Some r"
| "first_success (ev # evs) = first_success evs"

text \<open>
  \<open>reconnected_between need evs\<close>: in \<open>evs\<close> every invocation of the closure but the
  first is preceded, since the invocation before it, by a \<^verbatim>\<open>reconnect\<close> that returned
  nil. \<open>need\<close> says whether such a reconnect is still owed before the next invocation.
\<close>

fun reconnected_between :: "bool \<Rightarrow> 'r event list \<Rightarrow> bool" where
  "reconnected_between need [] = True"
| "reconnected_between need (Called r e # evs) = (\<not> need \<and> reconnected_between True evs)"
| "reconnected_between need (Reconnected None # evs) = reconnected_between False evs"
| "reconnected_between need (ev # evs) = reconnected_between need evs"

text \<open>
  \<open>paused_between d need evs\<close>: in \<open>evs\<close> every invocation of the closure but the
  first is preceded, since the invocation before it, by a sleep of \<open>d\<close>: consecutive
  invocations are kept the interval \<open>d\<close> apart. \<open>need\<close> says whether such a sleep is
  still owed before the next invocation.
\<close>

fun paused_between :: "duration \<Rightarrow> bool \<Rightarrow> 'r event list \<Rightarrow> bool" where
  "paused_between d need [] = True"
| "paused_between d need (Called r e # evs) = (\<not> need \<and> paused_between d True evs)"
| "paused_between d need (Slept d' # evs) = paused_between d (need \<and> d' \<noteq> d) evs"
| "paused_between d need (ev # evs) = paused_between d need evs"

text \<open>
  \<open>sleeps_between_dials evs\<close>: every sleep of \<open>evs\<close> comes right after a dial that
  failed and right before the next dial.
\<close>

fun sleeps_between_dials :: "'r event list \<Rightarrow> bool" where
  "sleeps_between_dials (Dialed (Some e) # Slept d # Dialed r # evs) =
     sleeps_between_dials (Dialed r # evs)"
| "sleeps_between_dials (Slept d # evs) = False"
| "sleeps_between_dials (ev # evs) = sleeps_between_dials evs"
| "sleeps_between_dials [] = True"

text \<open>
  The state in which attempt number \<open>k\<close> (from 0) of a retry starts when every attempt
  before it failed: each failed attempt is followed by a sleep of \<open>d\<close>.
\<close>

fun after_failures ::
  "(('r, 'z) history_scheme \<Rightarrow> error option \<times> ('r, 'z) history_scheme) \<Rightarrow> duration \<Rightarrow> nat
     \<Rightarrow> ('r, 'z) history_scheme \<Rightarrow> ('r, 'z) history_scheme" where
  "after_failures fn d 0 s = s"
| "after_failures fn d (Suc k) s = sleep_for d (snd (fn (after_failures fn d k s)))"

text \<open>
  The history of one run of \<^verbatim>\<open>retry.Retry\<close> over \<open>connectGrpcFunc\<close> with the
  interval \<open>d\<close>: failed dials, each followed by a sleep of \<open>d\<close>, and then a last dial.
\<close>

inductive retry_events :: "duration \<Rightarrow> 'r event list \<Rightarrow> bool" where
  last_dial: "retry_events d [Dialed r]"
| failed_dial: "retry_events d evs \<Longrightarrow> retry_events d (Dialed (Some e) # Slept d # evs)"

text \<open>
  The histories the loop of \<^verbatim>\<open>recall\<close> can leave: \<open>loop_events n ret err evs ret' err'\<close>
  when the loop, entered with \<open>n\<close> iterations to go and the local variables \<open>ret\<close> and
  \<open>err\<close>, appends \<open>evs\<close> and returns \<open>(ret', err')\<close>. One rule for each path through
  the loop body.
\<close>

inductive loop_events ::
  "nat \<Rightarrow> 'r \<Rightarrow> error option \<Rightarrow> 'r event list \<Rightarrow> 'r \<Rightarrow> error option \<Rightarrow> bool" where
  exhausted: "loop_events 0 ret err [] ret err"
| reconnect_failed:
    "retry_events (500 * Millisecond) ds \<Longrightarrow> loop_events n ret (Some e) evs ret' err'
       \<Longrightarrow> loop_events (Suc n) ret err (ds @ Reconnected (Some e) # evs) ret' err'"
| call_ok:
    "retry_events (500 * Millisecond) ds
       \<Longrightarrow> loop_events (Suc n) ret err (ds @ [Reconnected None, Called r None]) r None"
| call_failed:
    "retry_events (500 * Millisecond) ds \<Longrightarrow> loop_events n r (Some e) evs ret' err'
       \<Longrightarrow> loop_events (Suc n) ret err (ds @ Reconnected None # Called r (Some e) # evs) ret' err'"

subsection \<open>Example runs\<close>

text \<open>
  A client as \<^verbatim>\<open>NewClient\<close> makes it, an outside world that is a counter, dialers that
  always connect, never connect, or connect once the counter has run down, and closures
  that always fail or succeed once the counter has run down.
\<close>

definition example_client :: "nat Client" where
  "example_client = \<lparr> grpcClient = None, conn = None, address = ''node:21121'',
       timeout = 3000 * Millisecond, reconnTry = 10, recallTry = 3 \<rparr>"

definition example_world :: "nat \<Rightarrow> (nat, nat, nat) world" where
  "example_world n = \<lparr> trace = [], client = example_client, net = n \<rparr>"

definition dial_up :: "(nat, nat) dialer" where
  "dial_up addr tmo n = (Inr 7, n)"

definition dial_down :: "(nat, nat) dialer" where
  "dial_down addr tmo n = (Inl ''connection refused'', n)"

definition dial_after :: "(nat, nat) dialer" where
  "dial_after addr tmo n = (if n = 0 then (Inr 7, 0) else (Inl ''connection refused'', n - 1))"

definition caller_after :: "(nat, nat, nat) caller" where
  "caller_after c n = (if n = 0 then ((42, None), 0) else ((0, Some ''rpc failed''), n - 1))"

definition caller_down :: "(nat, nat, nat) caller" where
  "caller_down c n = ((5, Some ''rpc failed''), n)"

text \<open>
  The worlds of a run in which nothing works: after the first invocation of the failing
  closure, and after each of the reconnects that follow it.
\<close>

fun example_down :: "nat \<Rightarrow> (nat, nat, nat) world" where
  "example_down 0 = snd (invoke caller_down (example_world 0))"
| "example_down (Suc k) = snd (reconnect dial_down (example_down k))"

section \<open>The task codec of the query coordinator\<close>

text \<open>
  The scheduler of \<^verbatim>\<open>internal/querycoord\<close> is present only through its test file
  \<^verbatim>\<open>task_scheduler_test.go\<close>; \<^verbatim>\<open>marshal\<close> and \<^verbatim>\<open>unmarshalTask\<close> themselves are not
  among the source files. The definitions of this section follow the spec.
\<close>

text \<open>
  Modelled from the spec: the message-type discriminator \<^verbatim>\<open>commonpb.MsgType\<close>, whose
  declaration is not among the source files. The nine task variants are named by the
  spec and by \<^verbatim>\<open>TestUnMarshalTask\<close>; \<open>OtherMsgType\<close> stands for every other
  discriminator value.
\<close>

datatype MsgType =
    LoadCollection
  | LoadPartitions
  | ReleaseCollection
  | ReleasePartitions
  | LoadSegments
  | ReleaseSegments
  | WatchDmChannels
  | WatchQueryChannels
  | LoadBalanceSegments
  | OtherMsgType nat

definition task_variants :: "MsgType list" where
  "task_variants = [LoadCollection, LoadPartitions, ReleaseCollection, ReleasePartitions,
     LoadSegments, ReleaseSegments, WatchDmChannels, WatchQueryChannels, LoadBalanceSegments]"

text \<open>
  Modelled from the spec: the lifecycle states (undefined, unissued, doing, done,
  failed) of the absent type \<^verbatim>\<open>taskState\<close>; the test names \<^verbatim>\<open>taskDone\<close>.
\<close>

datatype taskState = taskUndefined | taskUnissued | taskDoing | taskDone | taskFailed

text \<open>Modelled from the spec: its error taxonomy; the source files declare no such errors.\<close>

datatype task_error =
    ErrQueueFull
  | ErrUnknownTaskType
  | ErrCorruptTask
  | ErrWorkerUnavailable
  | ErrRecoveryFailed
  | ErrCancelled

text \<open>
  Modelled from the spec: the task, whose declaration is not among the source files,
  reduced to what \<^verbatim>\<open>unmarshal\<close> determines of it: its id, its message type, its state and its
  variant-specific request payload (of a type \<open>'p\<close>; the request types are outside the
  scope of the spec). The id is a 64-bit identifier on which no arithmetic is done. The
  condition of a task is a synchronisation primitive and is left out.
\<close>

record 'p task =
  taskID :: int
  msgType :: MsgType
  state :: taskState
  payload :: 'p

text \<open>
  Modelled from the spec: the blob that \<^verbatim>\<open>marshal\<close> produces. It is self-describing: it
  holds the type tag and the bytes of the request payload. The spec fixes no byte
  layout, so a blob is kept as these two parts.
\<close>

record blob =
  tag :: MsgType
  body :: string

text \<open>
  Modelled from the spec: \<^verbatim>\<open>unmarshalTask(id, blob)\<close>, absent from the source files. The
  codec dispatches on the tag; it reconstructs the task with the supplied id, its
  variant-specific fields and the state undefined. An unknown tag gives
  \<open>ErrUnknownTaskType\<close>, a malformed payload \<open>ErrCorruptTask\<close>. The decoder \<open>dec\<close> of
  the request payload of each message type is a parameter; \<open>None\<close> is its verdict that
  the bytes are malformed.
\<close>

definition unmarshalTask ::
  "(MsgType \<Rightarrow> string \<Rightarrow> 'p option) \<Rightarrow> int \<Rightarrow> blob \<Rightarrow> task_error + 'p task" where
  "unmarshalTask dec ident b =
     (if tag b \<in> set task_variants then
        (case dec (tag b) (body b) of
           None \<Rightarrow> Inl ErrCorruptTask
         | Some p \<Rightarrow> Inr \<lparr> taskID = ident, msgType = tag b, state = taskUndefined, payload = p \<rparr>)
      else Inl ErrUnknownTaskType)"

text \<open>
  An example payload decoder: the payload is its own byte string, and an empty byte
  string is malformed.
\<close>

definition example_dec :: "MsgType \<Rightarrow> string \<Rightarrow> string option" where
  "example_dec k bs = (if bs = [] then None else Some bs)"

section \<open>Properties\<close>

subsection \<open>Histories and the retry helper\<close>

lemma trace_log_event [simp]: "trace (log_event ev s) = trace s @ [ev]"
  by (simp add: log_event_def)

lemma trace_sleep_for [simp]: "trace (sleep_for d s) = trace s @ [Slept d]"
  by (simp add: sleep_for_def)

lemma client_log_event [simp]: "client (log_event ev s) = client s"
  by (simp add: log_event_def)

lemma net_log_event [simp]: "net (log_event ev s) = net s"
  by (simp add: log_event_def)

lemma client_sleep_for [simp]: "client (sleep_for d s) = client s"
  by (simp add: sleep_for_def)

lemma after_failures_shift:
  "after_failures fn d (Suc k) s = after_failures fn d k (sleep_for d (snd (fn s)))"
  by (induction k) simp_all

lemma Retry_success:
  "k < n \<Longrightarrow> (\<forall>j<k. fst (fn (after_failures fn d j s)) \<noteq> None)
     \<Longrightarrow> fn (after_failures fn d k s) = (None, s')
     \<Longrightarrow> Retry n d fn s = (None, s')"
proof (induction k arbitrary: n s)
  case 0
  then show ?case by (simp add: Retry.simps [of n])
next
  case (Suc k)
  from Suc.prems(2) have "fst (fn s) \<noteq> None" by (metis after_failures.simps(1) zero_less_Suc)
  then obtain e s1 where fs: "fn s = (Some e, s1)" by (cases "fn s") auto
  have n: "\<not> n \<le> 1" "k < n - 1" using Suc.prems(1) by auto
  have "\<forall>j<k. fst (fn (after_failures fn d j (sleep_for d s1))) \<noteq> None"
    using Suc.prems(2) fs by (metis after_failures_shift Suc_less_eq snd_conv)
  moreover have "fn (after_failures fn d k (sleep_for d s1)) = (None, s')"
    using Suc.prems(3) fs by (simp only: after_failures_shift snd_conv)
  ultimately have "Retry (n - 1) d fn (sleep_for d s1) = (None, s')"
    using Suc.IH n by blast
  then show ?case using fs n by (simp add: Retry.simps [of n])
qed

lemma Retry_failure:
  "0 < n \<Longrightarrow> (\<forall>j<n. fst (fn (after_failures fn d j s)) \<noteq> None)
     \<Longrightarrow> Retry n d fn s = fn (after_failures fn d (n - 1) s)"
proof (induction n arbitrary: s)
  case 0
  then show ?case by simp
next
  case (Suc n)
  from Suc.prems(2) have "fst (fn s) \<noteq> None" by (metis after_failures.simps(1) zero_less_Suc)
  then obtain e s1 where fs: "fn s = (Some e, s1)" by (cases "fn s") auto
  show ?case
  proof (cases "n = 0")
    case True
    then show ?thesis using fs by (simp add: Retry.simps [of "Suc 0"])
  next
    case False
    then obtain m where m: "n = Suc m" by (cases n) auto
    have "\<forall>j<n. fst (fn (after_failures fn d j (sleep_for d s1))) \<noteq> None"
      using Suc.prems(2) fs by (metis after_failures_shift Suc_less_eq snd_conv)
    then have "Retry n d fn (sleep_for d s1) = fn (after_failures fn d (n - 1) (sleep_for d s1))"
      using Suc.IH False by blast
    also have "\<dots> = fn (after_failures fn d n s)"
      using fs m by (simp only: after_failures_shift snd_conv diff_Suc_1)
    finally show ?thesis using fs False by (simp add: Retry.simps [of "Suc n"])
  qed
qed

lemma connectGrpcFunc_trace:
  "connectGrpcFunc dial s = (r, s') \<Longrightarrow>
     trace s' = trace s @ [Dialed r] \<and> recallTry (client s') = recallTry (client s)"
  by (auto simp: connectGrpcFunc_def split: prod.splits sum.splits)

lemma Retry_trace_gen:
  "fn = connectGrpcFunc dial \<Longrightarrow> Retry n d fn s = (r, s') \<Longrightarrow>
     \<exists>evs. trace s' = trace s @ evs \<and> retry_events d evs \<and>
           recallTry (client s') = recallTry (client s)"
proof (induction n d fn s rule: Retry.induct)
  case (1 attempts sleep fn s)
  obtain r1 s1 where f: "fn s = (r1, s1)" by (cases "fn s")
  then have "connectGrpcFunc dial s = (r1, s1)" using "1.prems"(1) by simp
  note t = connectGrpcFunc_trace [OF this]
  show ?case
  proof (cases "r1 = None \<or> attempts \<le> 1")
    case True
    then have "s' = s1" "r = r1" using "1.prems" f
      by (auto simp: Retry.simps [of attempts] split: option.splits)
    then show ?thesis using t by (auto intro: last_dial)
  next
    case False
    then obtain e where e: "r1 = Some e" by auto
    have "Retry (attempts - 1) sleep fn (sleep_for sleep s1) = (r, s')"
      using "1.prems" f e False by (simp add: Retry.simps [of attempts])
    from "1.IH" [OF f [symmetric, unfolded e] refl _ "1.prems"(1) this] False
    obtain evs where "trace s' = trace (sleep_for sleep s1) @ evs" "retry_events sleep evs"
      "recallTry (client s') = recallTry (client (sleep_for sleep s1))" by auto
    then show ?thesis using t e by (auto intro: failed_dial)
  qed
qed

lemmas Retry_connect_trace = Retry_trace_gen [OF refl]

lemma reconnect_trace:
  "reconnect dial s = (r, s') \<Longrightarrow>
     \<exists>evs. trace s' = trace s @ evs @ [Reconnected r] \<and> retry_events (500 * Millisecond) evs \<and>
           recallTry (client s') = recallTry (client s)"
proof -
  assume a: "reconnect dial s = (r, s')"
  obtain r1 s1 where f: "Retry (nat (reconnTry (client s))) (500 * Millisecond) (connectGrpcFunc dial) s = (r1, s1)"
    by (cases "Retry (nat (reconnTry (client s))) (500 * Millisecond) (connectGrpcFunc dial) s")
  from Retry_connect_trace [OF f] obtain evs where
    "trace s1 = trace s @ evs" "retry_events (500 * Millisecond) evs"
    "recallTry (client s1) = recallTry (client s)" by auto
  then show ?thesis using a f by (auto simp: reconnect_def split: option.splits)
qed

lemma invoke_trace:
  "invoke caller s = ((ret, err), s') \<Longrightarrow>
     trace s' = trace s @ [Called ret err] \<and> client s' = client s"
  by (auto simp: invoke_def split: prod.splits)

subsection \<open>The loop of recall\<close>

lemma recall_loop_events:
  "recall_loop dial caller n ret err s = ((ret', err'), s') \<Longrightarrow>
     \<exists>evs. trace s' = trace s @ evs \<and> loop_events n ret err evs ret' err' \<and>
           recallTry (client s') = recallTry (client s)"
proof (induction n arbitrary: ret err s)
  case 0
  then show ?case by (auto intro: exhausted)
next
  case (Suc n)
  obtain r1 s1 where rc: "reconnect dial s = (r1, s1)" by (cases "reconnect dial s")
  from reconnect_trace [OF rc] obtain ds where
    ds: "trace s1 = trace s @ ds @ [Reconnected r1]" "retry_events (500 * Millisecond) ds"
      "recallTry (client s1) = recallTry (client s)"
    by auto
  show ?case
  proof (cases r1)
    case (Some e)
    then have "recall_loop dial caller n ret (Some e) s1 = ((ret', err'), s')"
      using Suc.prems rc by simp
    from Suc.IH [OF this] obtain evs where
      "trace s' = trace s1 @ evs" "loop_events n ret (Some e) evs ret' err'"
      "recallTry (client s') = recallTry (client s1)" by auto
    then show ?thesis using ds Some by (auto intro: reconnect_failed)
  next
    case None
    obtain r2 e2 s2 where iv: "invoke caller s1 = ((r2, e2), s2)"
      by (cases "invoke caller s1") auto
    note t2 = invoke_trace [OF iv]
    show ?thesis
    proof (cases e2)
      case None2: None
      then have "ret' = r2" "err' = None" "s' = s2"
        using Suc.prems rc None iv by simp_all
      then show ?thesis using ds t2 None None2 by (auto intro: call_ok)
    next
      case (Some e)
      then have "recall_loop dial caller n r2 (Some e) s2 = ((ret', err'), s')"
        using Suc.prems rc None iv by simp
      from Suc.IH [OF this] obtain evs where
        "trace s' = trace s2 @ evs" "loop_events n r2 (Some e) evs ret' err'"
        "recallTry (client s') = recallTry (client s2)" by auto
      then show ?thesis using ds t2 None Some by (auto intro: call_failed)
    qed
  qed
qed

lemma calls_simps [simp]:
  "calls [] = 0"
  "calls (ev # evs) = (if is_Called ev then Suc (calls evs) else calls evs)"
  "calls (xs @ ys) = calls xs + calls ys"
  by (simp_all add: calls_def)

lemma reconnects_simps [simp]:
  "reconnects [] = 0"
  "reconnects (ev # evs) = (if is_Reconnected ev then Suc (reconnects evs) else reconnects evs)"
  "reconnects (xs @ ys) = reconnects xs + reconnects ys"
  by (simp_all add: reconnects_def)

lemma failed_reconnects_simps [simp]:
  "failed_reconnects [] = 0"
  "failed_reconnects (ev # evs) =
     (if is_Reconnected ev \<and> event_error ev \<noteq> None then Suc (failed_reconnects evs)
      else failed_reconnects evs)"
  "failed_reconnects (xs @ ys) = failed_reconnects xs + failed_reconnects ys"
  by (simp_all add: failed_reconnects_def)

lemma retry_events_counts:
  "retry_events d ds \<Longrightarrow> calls ds = 0 \<and> reconnects ds = 0 \<and> failed_reconnects ds = 0"
  by (induction rule: retry_events.induct) simp_all

lemma retry_events_first_success:
  "retry_events d ds \<Longrightarrow> first_success (ds @ evs) = first_success evs"
  by (induction rule: retry_events.induct) simp_all

lemma retry_events_reconnected_between:
  "retry_events d ds \<Longrightarrow> reconnected_between need (ds @ evs) = reconnected_between need evs"
  by (induction rule: retry_events.induct) simp_all

lemma retry_events_Slept: "retry_events d ds \<Longrightarrow> Slept d' \<in> set ds \<Longrightarrow> d' = d"
  by (induction rule: retry_events.induct) auto

lemma retry_events_hd: "retry_events d ds \<Longrightarrow> \<exists>r rest. ds = Dialed r # rest"
  by (induction rule: retry_events.induct) simp_all

lemma sleeps_between_dials_skip:
  "(\<forall>d. ev \<noteq> Slept d) \<Longrightarrow> (\<forall>r. ev \<noteq> Dialed r) \<Longrightarrow>
     sleeps_between_dials (ev # evs) = sleeps_between_dials evs"
  by (cases ev) simp_all

lemma sleeps_between_dials_Dialed:
  "(\<forall>d. evs \<noteq> [] \<longrightarrow> hd evs \<noteq> Slept d) \<Longrightarrow>
     sleeps_between_dials (Dialed r # evs) = sleeps_between_dials evs"
  by (cases "(Dialed r # evs)" rule: sleeps_between_dials.cases) auto

lemma retry_events_sleeps_between_dials:
  "retry_events d ds \<Longrightarrow> (\<forall>d'. evs \<noteq> [] \<longrightarrow> hd evs \<noteq> Slept d') \<Longrightarrow>
     sleeps_between_dials (ds @ evs) = sleeps_between_dials evs"
proof (induction rule: retry_events.induct)
  case (last_dial d r)
  then show ?case by (simp add: sleeps_between_dials_Dialed)
next
  case (failed_dial d ds e)
  from retry_events_hd [OF failed_dial.hyps] obtain r rest where "ds = Dialed r # rest" by blast
  then show ?case using failed_dial.IH [OF failed_dial.prems] by simp
qed

lemma loop_events_counts:
  "loop_events n ret err evs ret' err' \<Longrightarrow>
     reconnects evs \<le> n \<and> calls evs + failed_reconnects evs = reconnects evs"
  by (induction rule: loop_events.induct) (auto simp: retry_events_counts)

lemma loop_events_Slept:
  "loop_events n ret err evs ret' err' \<Longrightarrow> Slept d \<in> set evs \<Longrightarrow> d = 500 * Millisecond"
  by (induction rule: loop_events.induct) (auto dest: retry_events_Slept)

lemma loop_events_between:
  "loop_events n ret err evs ret' err' \<Longrightarrow> reconnected_between True evs"
  by (induction rule: loop_events.induct) (auto simp: retry_events_reconnected_between)

lemma loop_events_sleeps:
  "loop_events n ret err evs ret' err' \<Longrightarrow> sleeps_between_dials evs"
  by (induction rule: loop_events.induct) (simp_all add: retry_events_sleeps_between_dials)

lemma last_error_snoc:
  "last_error (xs @ [ev]) = (if event_error ev \<noteq> None then event_error ev else last_error xs)"
  by (simp add: last_error_def split: option.splits)

lemma loop_events_success:
  "loop_events n ret err evs ret' err' \<Longrightarrow> first_success evs = Some r \<Longrightarrow> ret' = r \<and> err' = None"
  by (induction rule: loop_events.induct) (auto simp: retry_events_first_success)

lemma loop_events_success_last:
  "loop_events n ret err evs ret' err' \<Longrightarrow> first_success evs = Some r \<Longrightarrow>
     last evs = Called r None"
proof (induction rule: loop_events.induct)
  case (exhausted ret err)
  then show ?case by simp
next
  case (reconnect_failed ds n ret e evs ret' err' err)
  then have fs: "first_success evs = Some r" by (simp add: retry_events_first_success)
  then have "evs \<noteq> []" by auto
  then show ?case using reconnect_failed.IH [OF fs] by simp
next
  case (call_ok ds n ret err r')
  then show ?case by (simp add: retry_events_first_success)
next
  case (call_failed ds n r' e evs ret' err' ret err)
  then have fs: "first_success evs = Some r" by (simp add: retry_events_first_success)
  then have "evs \<noteq> []" by auto
  then show ?case using call_failed.IH [OF fs] by simp
qed

lemma loop_events_exhausted:
  "loop_events n ret err evs ret' err' \<Longrightarrow> first_success evs = None \<Longrightarrow> reconnects evs = n"
  by (induction rule: loop_events.induct)
     (simp_all add: retry_events_first_success retry_events_counts)

lemma loop_events_failure:
  "loop_events n ret err evs ret' err' \<Longrightarrow> first_success evs = None \<Longrightarrow>
     err = last_error pre \<Longrightarrow> err \<noteq> None \<Longrightarrow> err' \<noteq> None \<and> err' = last_error (pre @ evs)"
proof (induction arbitrary: pre rule: loop_events.induct)
  case (exhausted ret err)
  then show ?case by simp
next
  case (reconnect_failed ds n ret e evs ret' err' err)
  have "first_success evs = None"
    using reconnect_failed.prems(1) reconnect_failed.hyps(1) by (simp add: retry_events_first_success)
  moreover have "Some e = last_error ((pre @ ds) @ [Reconnected (Some e)])"
    by (simp only: last_error_snoc) simp
  ultimately have "err' \<noteq> None \<and> err' = last_error (((pre @ ds) @ [Reconnected (Some e)]) @ evs)"
    using reconnect_failed.IH by blast
  moreover have "((pre @ ds) @ [Reconnected (Some e)]) @ evs = pre @ ds @ Reconnected (Some e) # evs"
    by simp
  ultimately show ?case by (rule back_subst [where P = "\<lambda>x. err' \<noteq> None \<and> err' = last_error x"])
next
  case (call_ok ds n ret err r)
  then show ?case by (simp add: retry_events_first_success)
next
  case (call_failed ds n r e evs ret' err' ret err)
  have "first_success evs = None"
    using call_failed.prems(1) call_failed.hyps(1) by (simp add: retry_events_first_success)
  moreover have "Some e = last_error ((pre @ ds @ [Reconnected None]) @ [Called r (Some e)])"
    by (simp only: last_error_snoc) simp
  ultimately have
    "err' \<noteq> None \<and> err' = last_error (((pre @ ds @ [Reconnected None]) @ [Called r (Some e)]) @ evs)"
    using call_failed.IH by blast
  moreover have "((pre @ ds @ [Reconnected None]) @ [Called r (Some e)]) @ evs
                   = pre @ ds @ Reconnected None # Called r (Some e) # evs"
    by simp
  ultimately show ?case by (rule back_subst [where P = "\<lambda>x. err' \<noteq> None \<and> err' = last_error x"])
qed

lemma new_events_append: "trace s' = trace s @ evs \<Longrightarrow> new_events s s' = evs"
  by (simp add: new_events_def)

lemma recall_events:
  assumes "recall dial caller s = ((ret, err), s')"
  shows "\<exists>r0 e0 evs. new_events s s' = Called r0 e0 # evs \<and>
           fst (caller (client s) (net s)) = (r0, e0) \<and>
           (case e0 of None \<Rightarrow> evs = [] \<and> ret = r0 \<and> err = None
            | Some e \<Rightarrow> loop_events (nat (recallTry (client s))) r0 (Some e) evs ret err)"
proof -
  obtain r0 e0 s0 where iv: "invoke caller s = ((r0, e0), s0)"
    by (cases "invoke caller s") auto
  note t0 = invoke_trace [OF iv]
  have c0: "fst (caller (client s) (net s)) = (r0, e0)"
    using iv by (auto simp: invoke_def split: prod.splits)
  show ?thesis
  proof (cases e0)
    case None
    then have "ret = r0" "err = None" "s' = s0" using assms iv by (simp_all add: recall_def)
    then show ?thesis using t0 None c0 by (simp add: new_events_append)
  next
    case (Some e)
    then have "recall_loop dial caller (nat (recallTry (client s0))) r0 (Some e) s0 = ((ret, err), s')"
      using assms iv by (simp add: recall_def)
    from recall_loop_events [OF this] obtain evs where
      "trace s' = trace s0 @ evs" "loop_events (nat (recallTry (client s0))) r0 (Some e) evs ret err"
      by auto
    then have "new_events s s' = Called r0 e0 # evs"
      "loop_events (nat (recallTry (client s))) r0 (Some e) evs ret err"
      using t0 by (simp_all add: new_events_append)
    then show ?thesis using Some c0 by simp
  qed
qed

lemma connectGrpcFunc_nil_conn:
  "connectGrpcFunc dial s = (None, s') \<Longrightarrow> conn (client s') \<noteq> None"
  by (auto simp: connectGrpcFunc_def split: prod.splits sum.splits)

lemma Retry_nil_conn_gen:
  "fn = connectGrpcFunc dial \<Longrightarrow> Retry n d fn s = (None, s') \<Longrightarrow> conn (client s') \<noteq> None"
proof (induction n d fn s rule: Retry.induct)
  case (1 attempts sleep fn s)
  obtain r1 s1 where f: "fn s = (r1, s1)" by (cases "fn s")
  show ?case
  proof (cases r1)
    case None
    then have "s' = s1" using "1.prems" f by (simp add: Retry.simps [of attempts])
    moreover have "connectGrpcFunc dial s = (None, s1)" using f None "1.prems"(1) by simp
    ultimately show ?thesis using connectGrpcFunc_nil_conn by blast
  next
    case (Some e)
    then have na: "\<not> attempts \<le> 1"
      using "1.prems" f by (auto simp: Retry.simps [of attempts])
    then have "Retry (attempts - 1) sleep fn (sleep_for sleep s1) = (None, s')"
      using "1.prems" f Some by (simp add: Retry.simps [of attempts])
    from "1.IH" [OF f [symmetric, unfolded Some] refl na "1.prems"(1) this] show ?thesis .
  qed
qed

lemma Init_nil_conn: "Init dial s = (None, s') \<Longrightarrow> conn (client s') \<noteq> None"
proof -
  assume a: "Init dial s = (None, s')"
  obtain r1 s1 where f: "Retry 100000 (Millisecond * 200) (connectGrpcFunc dial) s = (r1, s1)"
    by (cases "Retry 100000 (Millisecond * 200) (connectGrpcFunc dial) s")
  with a have "r1 = None" by (auto simp: Init_def split: option.splits)
  with f have "conn (client s1) \<noteq> None" using Retry_nil_conn_gen [OF refl] by blast
  with a f \<open>r1 = None\<close> show ?thesis by (auto simp: Init_def)
qed

text \<open>The equations that evaluate the example runs.\<close>

lemmas example_defs = recall_def invoke_def example_world_def caller_after_def caller_down_def
  dial_up_def dial_down_def dial_after_def reconnect_def Retry.simps
  connectGrpcFunc_def example_client_def log_event_def sleep_for_def numeral_3_eq_3 Millisecond_def

subsection \<open>The client\<close>

text \<open>
  C10. \<^verbatim>\<open>NewClient(address, timeout)\<close> returns an error exactly when the address is the
  empty string. For a non-empty address it returns a client with \<^verbatim>\<open>recallTry = 3\<close>,
  \<^verbatim>\<open>reconnTry = 10\<close> and the given timeout and address, and with no connection
  established: both pointers are nil. \<^verbatim>\<open>NewClient\<close> is a function of its two arguments
  alone, it takes no outside world and so cannot dial. A later \<^verbatim>\<open>Init\<close> on that client
  that returns nil has stored a connection.
\<close>

theorem NewClient_spec:
  "((\<exists>e. (NewClient addr tmo :: error + 'c Client) = Inl e) \<longleftrightarrow> addr = []) \<and>
   (addr \<noteq> [] \<longrightarrow>
      (\<exists>c. (NewClient addr tmo :: error + 'c Client) = Inr c \<and>
           recallTry c = 3 \<and> reconnTry c = 10 \<and> timeout c = tmo \<and> address c = addr \<and>
           conn c = None \<and> grpcClient c = None \<and>
           (\<forall>(dial :: ('c, 'w) dialer) (s :: ('c, 'w, 'r) world) s'.
              client s = c \<and> Init dial s = (None, s') \<longrightarrow> conn (client s') \<noteq> None)))"
  by (auto simp: NewClient_def dest: Init_nil_conn)

theorem NewClient_spec_witness:
  "''node:21121'' \<noteq> [] \<and>
   NewClient ''node:21121'' (3000 * Millisecond) = Inr example_client \<and>
   recallTry example_client = 3 \<and> reconnTry example_client = 10 \<and>
   timeout example_client = 3000 * Millisecond \<and> address example_client = ''node:21121'' \<and>
   conn example_client = None \<and> grpcClient example_client = None \<and>
   client (example_world 0) = example_client \<and>
   fst (Init dial_up (example_world 0)) = None \<and>
   conn (client (snd (Init dial_up (example_world 0)))) = Some 7"
  using NewClient_spec [of "''node:21121''" "3000 * Millisecond",
                        where ?'c = nat and ?'w = nat and ?'r = nat]
  by (simp add: NewClient_def Init_def example_defs)

text \<open>
  C5. For every caller closure, \<^verbatim>\<open>recall\<close> returns the first successful result the
  closure produces within the bound: the closure is invoked once, and once more after
  each reconnect that returned nil, for at most \<^verbatim>\<open>recallTry\<close> reconnects. If some
  invocation returned a nil error, \<^verbatim>\<open>recall\<close> returns the value of the first such
  invocation with a nil error, and that invocation is the last thing the run did. If no
  invocation within the bound succeeds, the bound has been used up (\<^verbatim>\<open>reconnect\<close> was
  called \<^verbatim>\<open>recallTry\<close> times) and \<^verbatim>\<open>recall\<close> returns a non-nil error, the last error
  met in the run (of the closure or of \<^verbatim>\<open>reconnect\<close>, whichever came last).
\<close>

theorem recall_result:
  "recall dial caller s = ((ret, err), s') \<Longrightarrow>
     (case first_success (new_events s s') of
        Some r \<Rightarrow> ret = r \<and> err = None \<and> last (new_events s s') = Called r None
      | None \<Rightarrow> err \<noteq> None \<and> err = last_error (new_events s s') \<and>
                reconnects (new_events s s') = nat (recallTry (client s))) \<and>
     calls (new_events s s') + failed_reconnects (new_events s s')
       = 1 + reconnects (new_events s s') \<and>
     reconnects (new_events s s') \<le> nat (recallTry (client s))"
proof -
  assume a: "recall dial caller s = ((ret, err), s')"
  from recall_events [OF a] obtain r0 e0 evs where
    ev: "new_events s s' = Called r0 e0 # evs" and
    sh: "case e0 of None \<Rightarrow> evs = [] \<and> ret = r0 \<and> err = None
         | Some e \<Rightarrow> loop_events (nat (recallTry (client s))) r0 (Some e) evs ret err"
    by blast
  show ?thesis
  proof (cases e0)
    case None
    then show ?thesis using ev sh by simp
  next
    case (Some e)
    then have le: "loop_events (nat (recallTry (client s))) r0 (Some e) evs ret err"
      using sh by simp
    have fs: "first_success (new_events s s') = first_success evs" using ev Some by simp
    note cn = loop_events_counts [OF le]
    have counts: "calls (new_events s s') + failed_reconnects (new_events s s')
        = 1 + reconnects (new_events s s') \<and>
      reconnects (new_events s s') \<le> nat (recallTry (client s))"
      using cn ev by simp
    show ?thesis
    proof (cases "first_success evs")
      case None
      have "Some e = last_error [Called r0 (Some e)]" by (simp add: last_error_def)
      from loop_events_failure [OF le None this, unfolded append.simps]
      have "err \<noteq> None" and "err = last_error (Called r0 (Some e) # evs)" by blast+
      moreover have "reconnects (new_events s s') = nat (recallTry (client s))"
        using loop_events_exhausted [OF le None] ev by simp
      ultimately show ?thesis using fs None ev \<open>e0 = Some e\<close> counts by simp
    next
      case (Some r)
      then have "evs \<noteq> []" by auto
      then have "last (new_events s s') = Called r None"
        using loop_events_success_last [OF le Some] ev by simp
      then show ?thesis using loop_events_success [OF le Some] fs Some counts by simp
    qed
  qed
qed

theorem recall_result_witness:
  "recall dial_up caller_after (example_world 2) =
     ((42, None),
      \<lparr> trace = [Called 0 (Some ''rpc failed''), Dialed None, Reconnected None,
                 Called 0 (Some ''rpc failed''), Dialed None, Reconnected None, Called 42 None],
        client = example_client\<lparr>grpcClient := Some (NewIndexNodeClient (Some 7)), conn := Some 7\<rparr>,
        net = 0 \<rparr>) \<and>
   first_success [Called 0 (Some ''rpc failed''), Dialed None, Reconnected None,
                  Called 0 (Some ''rpc failed''), Dialed None, Reconnected None, Called (42::nat) None]
     = Some 42 \<and>
   fst (recall dial_up caller_down (example_world 0)) = (5, Some ''rpc failed'') \<and>
   first_success (new_events (example_world 0) (snd (recall dial_up caller_down (example_world 0))))
     = None \<and>
   last_error (new_events (example_world 0) (snd (recall dial_up caller_down (example_world 0))))
     = Some ''rpc failed'' \<and>
   reconnects (new_events (example_world 0) (snd (recall dial_up caller_down (example_world 0)))) = 3 \<and>
   calls (new_events (example_world 0) (snd (recall dial_up caller_down (example_world 0)))) = 4"
proof -
  have h: "recall dial_up caller_after (example_world 2) =
     ((42, None),
      \<lparr> trace = [Called 0 (Some ''rpc failed''), Dialed None, Reconnected None,
                 Called 0 (Some ''rpc failed''), Dialed None, Reconnected None, Called 42 None],
        client = example_client\<lparr>grpcClient := Some (NewIndexNodeClient (Some 7)), conn := Some 7\<rparr>,
        net = 0 \<rparr>)"
    by (simp add: example_defs)
  have g': "fst (recall dial_up caller_down (example_world 0)) = (5, Some ''rpc failed'')"
    by (simp add: example_defs)
  have g: "recall dial_up caller_down (example_world 0) =
     ((5, Some ''rpc failed''), snd (recall dial_up caller_down (example_world 0)))"
    using g' by (simp add: prod_eq_iff)
  have t: "recallTry (client (example_world 0)) = 3"
    by (simp add: example_world_def example_client_def)
  have n: "first_success
      (new_events (example_world 0) (snd (recall dial_up caller_down (example_world 0)))) = None"
    by (simp add: example_defs new_events_def)
  have c: "failed_reconnects
      (new_events (example_world 0) (snd (recall dial_up caller_down (example_world 0)))) = 0"
    by (simp add: example_defs new_events_def)
  from recall_result [OF h] h have 1:
    "first_success [Called 0 (Some ''rpc failed''), Dialed None, Reconnected None,
                    Called 0 (Some ''rpc failed''), Dialed None, Reconnected None, Called (42::nat) None]
       = Some 42"
    by (simp add: new_events_def example_world_def split: option.splits)
  from recall_result [OF g] n t c have 2:
    "last_error (new_events (example_world 0) (snd (recall dial_up caller_down (example_world 0))))
       = Some ''rpc failed''"
    "reconnects (new_events (example_world 0) (snd (recall dial_up caller_down (example_world 0)))) = 3"
    "calls (new_events (example_world 0) (snd (recall dial_up caller_down (example_world 0)))) = 4"
    by simp_all
  from h 1 g' n 2 show ?thesis by simp
qed

text \<open>
  C8. For every caller closure: if its first invocation inside \<^verbatim>\<open>recall\<close> succeeds,
  \<^verbatim>\<open>recall\<close> returns that result with a nil error and \<^verbatim>\<open>reconnect\<close> is never
  called (the world is left as the one invocation left it). With \<^verbatim>\<open>recallTry = 3\<close>,
  in any run of \<^verbatim>\<open>recall\<close> the closure is invoked at most 4 times and
  \<^verbatim>\<open>reconnect\<close> at most 3 times.
\<close>

theorem recall_first_call_and_bounds:
  "(caller (client s) (net s) = ((r, None), n') \<longrightarrow>
      recall dial caller s = ((r, None), log_event (Called r None) (s\<lparr>net := n'\<rparr>)) \<and>
      reconnects (new_events s (snd (recall dial caller s))) = 0) \<and>
   (recallTry (client s) = 3 \<longrightarrow>
      calls (new_events s (snd (recall dial caller s))) \<le> 4 \<and>
      reconnects (new_events s (snd (recall dial caller s))) \<le> 3)"
proof (intro conjI impI)
  assume c: "caller (client s) (net s) = ((r, None), n')"
  then show "recall dial caller s = ((r, None), log_event (Called r None) (s\<lparr>net := n'\<rparr>))"
    by (simp add: recall_def invoke_def)
  then show "reconnects (new_events s (snd (recall dial caller s))) = 0"
    by (simp add: new_events_def)
next
  assume t: "recallTry (client s) = 3"
  obtain ret err s' where a: "recall dial caller s = ((ret, err), s')"
    by (cases "recall dial caller s") auto
  from recall_events [OF a] obtain r0 e0 evs where
    ev: "new_events s s' = Called r0 e0 # evs" and
    sh: "case e0 of None \<Rightarrow> evs = [] \<and> ret = r0 \<and> err = None
         | Some e \<Rightarrow> loop_events (nat (recallTry (client s))) r0 (Some e) evs ret err"
    by blast
  have "reconnects evs \<le> 3 \<and> calls evs \<le> 3"
  proof (cases e0)
    case None
    then show ?thesis using sh by simp
  next
    case (Some e)
    then have "loop_events 3 r0 (Some e) evs ret err" using sh t by simp
    from loop_events_counts [OF this] show ?thesis by simp
  qed
  then show "calls (new_events s (snd (recall dial caller s))) \<le> 4"
    and "reconnects (new_events s (snd (recall dial caller s))) \<le> 3"
    using a ev by simp_all
qed

theorem recall_first_call_and_bounds_witness:
  "caller_after (client (example_world 0)) (net (example_world 0)) = ((42, None), 0) \<and>
   recall dial_up caller_after (example_world 0)
     = ((42, None), log_event (Called 42 None) ((example_world 0)\<lparr>net := 0\<rparr>)) \<and>
   reconnects (new_events (example_world 0) (snd (recall dial_up caller_after (example_world 0)))) = 0 \<and>
   recallTry (client (example_world 0)) = 3 \<and>
   calls (new_events (example_world 0) (snd (recall dial_up caller_down (example_world 0)))) \<le> 4 \<and>
   reconnects (new_events (example_world 0) (snd (recall dial_up caller_down (example_world 0)))) \<le> 3"
proof -
  have h1: "caller_after (client (example_world 0)) (net (example_world 0)) = ((42, None), 0)"
    by (simp add: caller_after_def example_world_def)
  have h2: "recallTry (client (example_world 0)) = 3"
    by (simp add: example_world_def example_client_def)
  from recall_first_call_and_bounds
         [where caller = caller_after and s = "example_world 0" and r = 42 and n' = 0 and dial = dial_up]
       recall_first_call_and_bounds
         [where caller = caller_down and s = "example_world 0" and dial = dial_up]
       h1 h2
  show ?thesis by blast
qed

text \<open>
  C9. Inside \<^verbatim>\<open>recall\<close> with \<^verbatim>\<open>recallTry = 3\<close>, a failed reconnect uses up one of the
  three iterations without invoking the closure again: there are at most three
  reconnects, and the closure is invoked once at the start and once more for every
  reconnect that did not fail. In particular, if the first invocation fails and the
  three reconnects that follow all fail, \<^verbatim>\<open>recall\<close> returns the value of that first
  invocation with the error of the last reconnect, in the world the third reconnect
  left, and the closure has been invoked once.
\<close>

theorem recall_failed_reconnect:
  "recallTry (client s) = 3 \<Longrightarrow>
     (calls (new_events s (snd (recall dial caller s)))
        + failed_reconnects (new_events s (snd (recall dial caller s)))
        = 1 + reconnects (new_events s (snd (recall dial caller s))) \<and>
      reconnects (new_events s (snd (recall dial caller s))) \<le> 3) \<and>
     (invoke caller s = ((r0, Some e0), s0) \<and> reconnect dial s0 = (Some e1, s1) \<and>
      reconnect dial s1 = (Some e2, s2) \<and> reconnect dial s2 = (Some e3, s3) \<longrightarrow>
        recall dial caller s = ((r0, Some e3), s3) \<and> calls (new_events s s3) = 1)"
proof (intro conjI impI)
  assume t: "recallTry (client s) = 3"
  obtain ret err s' where a: "recall dial caller s = ((ret, err), s')"
    by (cases "recall dial caller s") auto
  from recall_events [OF a] obtain r0 e0 evs where
    ev: "new_events s s' = Called r0 e0 # evs" and
    sh: "case e0 of None \<Rightarrow> evs = [] \<and> ret = r0 \<and> err = None
         | Some e \<Rightarrow> loop_events (nat (recallTry (client s))) r0 (Some e) evs ret err"
    by blast
  have "reconnects evs \<le> 3 \<and> calls evs + failed_reconnects evs = reconnects evs"
  proof (cases e0)
    case None
    then show ?thesis using sh by simp
  next
    case (Some e)
    then have "loop_events 3 r0 (Some e) evs ret err" using sh t by simp
    from loop_events_counts [OF this] show ?thesis by simp
  qed
  then show "calls (new_events s (snd (recall dial caller s)))
        + failed_reconnects (new_events s (snd (recall dial caller s)))
        = 1 + reconnects (new_events s (snd (recall dial caller s)))"
    and "reconnects (new_events s (snd (recall dial caller s))) \<le> 3"
    using a ev by simp_all
next
  assume t: "recallTry (client s) = 3"
  assume h: "invoke caller s = ((r0, Some e0), s0) \<and> reconnect dial s0 = (Some e1, s1) \<and>
      reconnect dial s1 = (Some e2, s2) \<and> reconnect dial s2 = (Some e3, s3)"
  then have iv: "invoke caller s = ((r0, Some e0), s0)" and r1: "reconnect dial s0 = (Some e1, s1)"
    and r2: "reconnect dial s1 = (Some e2, s2)" and r3: "reconnect dial s2 = (Some e3, s3)"
    by simp_all
  have "nat (recallTry (client s0)) = Suc (Suc (Suc 0))"
    using invoke_trace [OF iv] t by simp
  then show "recall dial caller s = ((r0, Some e3), s3)"
    using iv r1 r2 r3 by (simp add: recall_def)
  from reconnect_trace [OF r1] reconnect_trace [OF r2] reconnect_trace [OF r3]
  obtain d1 d2 d3 where
    "trace s1 = trace s0 @ d1 @ [Reconnected (Some e1)]" "retry_events (500 * Millisecond) d1"
    "trace s2 = trace s1 @ d2 @ [Reconnected (Some e2)]" "retry_events (500 * Millisecond) d2"
    "trace s3 = trace s2 @ d3 @ [Reconnected (Some e3)]" "retry_events (500 * Millisecond) d3"
    by blast
  then show "calls (new_events s s3) = 1"
    using invoke_trace [OF iv] by (simp add: new_events_def retry_events_counts)
qed

theorem recall_failed_reconnect_witness:
  "recallTry (client (example_world 0)) = 3 \<and>
   invoke caller_down (example_world 0) = ((5, Some ''rpc failed''), example_down 0) \<and>
   reconnect dial_down (example_down 0) = (Some ''connection refused'', example_down 1) \<and>
   reconnect dial_down (example_down 1) = (Some ''connection refused'', example_down 2) \<and>
   reconnect dial_down (example_down 2) = (Some ''connection refused'', example_down 3) \<and>
   recall dial_down caller_down (example_world 0)
     = ((5, Some ''connection refused''), example_down 3) \<and>
   calls (new_events (example_world 0) (example_down 3)) = 1"
proof -
  have h0: "recallTry (client (example_world 0)) = 3"
    by (simp add: example_world_def example_client_def)
  have h1: "invoke caller_down (example_world 0) = ((5, Some ''rpc failed''), example_down 0)"
    by (simp add: invoke_def caller_down_def)
  have h2: "reconnect dial_down (example_down 0) = (Some ''connection refused'', example_down 1)"
    by (simp add: example_defs)
  have h3: "reconnect dial_down (example_down 1) = (Some ''connection refused'', example_down 2)"
    by (simp add: example_defs eval_nat_numeral)
  have h4: "reconnect dial_down (example_down 2) = (Some ''connection refused'', example_down 3)"
    by (simp add: example_defs eval_nat_numeral)
  from recall_failed_reconnect
         [OF h0, where caller = caller_down and dial = dial_down and ?r0.0 = 5
            and ?e0.0 = "''rpc failed''" and ?s0.0 = "example_down 0"
            and ?e1.0 = "''connection refused''" and ?s1.0 = "example_down 1"
            and ?e2.0 = "''connection refused''" and ?s2.0 = "example_down 2"
            and ?e3.0 = "''connection refused''" and ?s3.0 = "example_down 3"]
    h0 h1 h2 h3 h4
  show ?thesis by blast
qed

text \<open>
  C6, as stated: per-call recall retries with a bound of 3 attempts at a fixed interval
  of 500 ms, reconnecting to the worker between consecutive attempts. The interval does
  not hold between the attempts of the closure: when the worker accepts every dial and
  fails every call, the closure is invoked four times with a reconnect before each
  retry and without a single sleep.
\<close>

theorem recall_retry_interval_counterexample:
  "new_events (example_world 0) (snd (recall dial_up caller_down (example_world 0))) =
     [Called 5 (Some ''rpc failed''), Dialed None, Reconnected None,
      Called 5 (Some ''rpc failed''), Dialed None, Reconnected None,
      Called 5 (Some ''rpc failed''), Dialed None, Reconnected None,
      Called 5 (Some ''rpc failed'')] \<and>
   \<not> paused_between (500 * Millisecond) False
       (new_events (example_world 0) (snd (recall dial_up caller_down (example_world 0))))"
proof -
  have h: "new_events (example_world 0) (snd (recall dial_up caller_down (example_world 0))) =
     [Called 5 (Some ''rpc failed''), Dialed None, Reconnected None,
      Called 5 (Some ''rpc failed''), Dialed None, Reconnected None,
      Called 5 (Some ''rpc failed''), Dialed None, Reconnected None,
      Called 5 (Some ''rpc failed'')]"
    by (simp add: example_defs new_events_def)
  show ?thesis unfolding h by simp
qed

text \<open>
  C6, amended. Per-call recall on a client whose \<^verbatim>\<open>recallTry\<close> is the 3 that
  \<^verbatim>\<open>NewClient\<close> sets: the closure is retried at most 3 times after its first
  invocation; between two consecutive invocations there is a reconnect to the worker
  that returned nil; and every sleep of the run lasts 500 ms. The sleeps are those of
  the retry helper inside \<^verbatim>\<open>reconnect\<close>: each comes right after a dial that failed
  and right before the next dial. \<^verbatim>\<open>recall\<close> itself does not sleep.
\<close>

theorem recall_retry_policy:
  assumes "NewClient addr tmo = Inr c0" and "recallTry (client s) = recallTry c0"
  shows "calls (new_events s (snd (recall dial caller s))) \<le> 1 + 3 \<and>
         reconnected_between False (new_events s (snd (recall dial caller s))) \<and>
         (\<forall>d. Slept d \<in> set (new_events s (snd (recall dial caller s))) \<longrightarrow> d = 500 * Millisecond) \<and>
         sleeps_between_dials (new_events s (snd (recall dial caller s)))"
proof -
  have t: "recallTry (client s) = 3"
    using assms by (auto simp: NewClient_def split: if_splits)
  obtain ret err s' where a: "recall dial caller s = ((ret, err), s')"
    by (cases "recall dial caller s") auto
  from recall_events [OF a] obtain r0 e0 evs where
    ev: "new_events s s' = Called r0 e0 # evs" and
    sh: "case e0 of None \<Rightarrow> evs = [] \<and> ret = r0 \<and> err = None
         | Some e \<Rightarrow> loop_events (nat (recallTry (client s))) r0 (Some e) evs ret err"
    by blast
  have "calls evs \<le> 3 \<and> reconnected_between True evs \<and>
        (\<forall>d. Slept d \<in> set evs \<longrightarrow> d = 500 * Millisecond) \<and> sleeps_between_dials evs"
  proof (cases e0)
    case None
    then show ?thesis using sh by simp
  next
    case (Some e)
    then have le: "loop_events 3 r0 (Some e) evs ret err" using sh t by simp
    from loop_events_counts [OF le] loop_events_between [OF le] loop_events_Slept [OF le]
      loop_events_sleeps [OF le]
    show ?thesis by auto
  qed
  then show ?thesis using a ev by simp
qed

theorem recall_retry_policy_witness:
  "NewClient ''node:21121'' (3000 * Millisecond) = Inr example_client \<and>
   recallTry (client (example_world 2)) = recallTry example_client \<and>
   calls (new_events (example_world 2) (snd (recall dial_after caller_down (example_world 2)))) \<le> 1 + 3 \<and>
   reconnected_between False
     (new_events (example_world 2) (snd (recall dial_after caller_down (example_world 2)))) \<and>
   sleeps_between_dials
     (new_events (example_world 2) (snd (recall dial_after caller_down (example_world 2)))) \<and>
   500 * Millisecond = 500000000 \<and>
   new_events (example_world 2) (snd (recall dial_after caller_down (example_world 2))) =
     [Called 5 (Some ''rpc failed''),
      Dialed (Some ''connection refused''), Slept 500000000,
      Dialed (Some ''connection refused''), Slept 500000000,
      Dialed None, Reconnected None, Called 5 (Some ''rpc failed''),
      Dialed None, Reconnected None, Called 5 (Some ''rpc failed''),
      Dialed None, Reconnected None, Called 5 (Some ''rpc failed'')]"
proof -
  have h1: "NewClient ''node:21121'' (3000 * Millisecond) = Inr example_client"
    by (simp add: NewClient_def example_client_def)
  have h2: "recallTry (client (example_world 2)) = recallTry example_client"
    by (simp add: example_world_def)
  have h3: "new_events (example_world 2) (snd (recall dial_after caller_down (example_world 2))) =
     [Called 5 (Some ''rpc failed''),
      Dialed (Some ''connection refused''), Slept 500000000,
      Dialed (Some ''connection refused''), Slept 500000000,
      Dialed None, Reconnected None, Called 5 (Some ''rpc failed''),
      Dialed None, Reconnected None, Called 5 (Some ''rpc failed''),
      Dialed None, Reconnected None, Called 5 (Some ''rpc failed'')]"
    by (simp add: example_defs new_events_def)
  have h4: "500 * Millisecond = 500000000"
    by (simp add: Millisecond_def)
  from recall_retry_policy [OF h1 h2, of dial_after caller_down] h1 h2 h3 h4
  show ?thesis by blast
qed

text \<open>
  C7. \<^verbatim>\<open>Init\<close> retries the connection attempt with the fixed bound of 100000 attempts
  and a fixed interval of 200 ms. Attempt \<open>k\<close> starts in the world left by \<open>k\<close> failed
  dials, each followed by a sleep of 200 ms. If an attempt below the bound is the first
  to connect, \<^verbatim>\<open>Init\<close> returns nil, with the connection stored and the stub built on
  it. If all 100000 attempts fail, \<^verbatim>\<open>Init\<close> returns the error of the last one, in
  the world that attempt left.
\<close>

theorem Init_spec:
  "(k < 100000 \<and>
    (\<forall>j<k. fst (connectGrpcFunc dial (after_failures (connectGrpcFunc dial) (200 * Millisecond) j s)) \<noteq> None) \<and>
    connectGrpcFunc dial (after_failures (connectGrpcFunc dial) (200 * Millisecond) k s) = (None, s')
      \<longrightarrow> conn (client s') \<noteq> None \<and>
          Init dial s =
            (None, s'\<lparr>client := (client s')\<lparr>grpcClient := Some (NewIndexNodeClient (conn (client s')))\<rparr>\<rparr>)) \<and>
   ((\<forall>j<100000. fst (connectGrpcFunc dial (after_failures (connectGrpcFunc dial) (200 * Millisecond) j s)) \<noteq> None)
      \<longrightarrow> fst (Init dial s) \<noteq> None \<and>
          Init dial s = connectGrpcFunc dial (after_failures (connectGrpcFunc dial) (200 * Millisecond) 99999 s))"
proof (intro conjI impI)
  assume h: "k < 100000 \<and>
    (\<forall>j<k. fst (connectGrpcFunc dial (after_failures (connectGrpcFunc dial) (200 * Millisecond) j s)) \<noteq> None) \<and>
    connectGrpcFunc dial (after_failures (connectGrpcFunc dial) (200 * Millisecond) k s) = (None, s')"
  then show "conn (client s') \<noteq> None"
    by (auto simp: connectGrpcFunc_def split: prod.splits sum.splits)
  from h have "Retry 100000 (200 * Millisecond) (connectGrpcFunc dial) s = (None, s')"
    by (intro Retry_success [of k]) simp_all
  then show "Init dial s =
      (None, s'\<lparr>client := (client s')\<lparr>grpcClient := Some (NewIndexNodeClient (conn (client s')))\<rparr>\<rparr>)"
    by (simp add: Init_def mult.commute)
next
  assume h: "\<forall>j<100000. fst (connectGrpcFunc dial (after_failures (connectGrpcFunc dial) (200 * Millisecond) j s)) \<noteq> None"
  then have r: "Retry 100000 (200 * Millisecond) (connectGrpcFunc dial) s
      = connectGrpcFunc dial (after_failures (connectGrpcFunc dial) (200 * Millisecond) (100000 - 1) s)"
    by (intro Retry_failure) simp_all
  from h have f: "fst (connectGrpcFunc dial (after_failures (connectGrpcFunc dial) (200 * Millisecond) 99999 s)) \<noteq> None"
    by simp
  from r f show "Init dial s = connectGrpcFunc dial (after_failures (connectGrpcFunc dial) (200 * Millisecond) 99999 s)"
    by (cases "connectGrpcFunc dial (after_failures (connectGrpcFunc dial) (200 * Millisecond) 99999 s)")
       (auto simp: Init_def mult.commute)
  then show "fst (Init dial s) \<noteq> None" using f by simp
qed

theorem Init_spec_witness:
  "(2::nat) < 100000 \<and>
   fst (connectGrpcFunc dial_after
          (after_failures (connectGrpcFunc dial_after) (200 * Millisecond) 0 (example_world 2)))
     = Some ''connection refused'' \<and>
   fst (connectGrpcFunc dial_after
          (after_failures (connectGrpcFunc dial_after) (200 * Millisecond) 1 (example_world 2)))
     = Some ''connection refused'' \<and>
   fst (connectGrpcFunc dial_after
          (after_failures (connectGrpcFunc dial_after) (200 * Millisecond) 2 (example_world 2)))
     = None \<and>
   Init dial_after (example_world 2) =
     (None,
      \<lparr> trace = [Dialed (Some ''connection refused''), Slept 200000000,
                 Dialed (Some ''connection refused''), Slept 200000000, Dialed None],
        client = example_client\<lparr>grpcClient := Some (NewIndexNodeClient (Some 7)), conn := Some 7\<rparr>,
        net = 0 \<rparr>) \<and>
   fst (Init dial_down (example_world 0)) = Some ''connection refused''"
proof -
  have f0: "fst (connectGrpcFunc dial_after
          (after_failures (connectGrpcFunc dial_after) (200 * Millisecond) 0 (example_world 2)))
     = Some ''connection refused''"
    by (simp add: example_defs)
  have f1: "fst (connectGrpcFunc dial_after
          (after_failures (connectGrpcFunc dial_after) (200 * Millisecond) 1 (example_world 2)))
     = Some ''connection refused''"
    by (simp add: example_defs)
  have h1: "\<forall>j<2. fst (connectGrpcFunc dial_after
       (after_failures (connectGrpcFunc dial_after) (200 * Millisecond) j (example_world 2))) \<noteq> None"
    using f0 f1 by (simp add: numeral_2_eq_2 All_less_Suc)
  have h2: "connectGrpcFunc dial_after
       (after_failures (connectGrpcFunc dial_after) (200 * Millisecond) 2 (example_world 2)) =
     (None,
      \<lparr> trace = [Dialed (Some ''connection refused''), Slept 200000000,
                 Dialed (Some ''connection refused''), Slept 200000000, Dialed None],
        client = example_client\<lparr>conn := Some 7\<rparr>,
        net = 0 \<rparr>)"
    by (simp add: numeral_2_eq_2 example_defs)
  have d: "fst (connectGrpcFunc dial_down s) = Some ''connection refused''"
    for s :: "(nat, nat, nat) world"
    by (simp add: connectGrpcFunc_def dial_down_def)
  have h3: "\<forall>j<100000. fst (connectGrpcFunc dial_down
       (after_failures (connectGrpcFunc dial_down) (200 * Millisecond) j (example_world 0))) \<noteq> None"
    by (simp add: d)
  have g1: "Init dial_after (example_world 2) =
     (None,
      \<lparr> trace = [Dialed (Some ''connection refused''), Slept 200000000,
                 Dialed (Some ''connection refused''), Slept 200000000, Dialed None],
        client = example_client\<lparr>grpcClient := Some (NewIndexNodeClient (Some 7)), conn := Some 7\<rparr>,
        net = 0 \<rparr>)"
    using Init_spec [where k = 2 and dial = dial_after and s = "example_world 2"] h1 h2
    by (simp add: example_client_def)
  have g2: "fst (Init dial_down (example_world 0)) = Some ''connection refused''"
    using Init_spec [where dial = dial_down and s = "example_world 0"] h3 by (simp add: d)
  from f0 f1 h2 g1 g2 show ?thesis by simp
qed

subsection \<open>The task codec\<close>

text \<open>
  C4. For every id and blob, \<^verbatim>\<open>unmarshalTask(id, blob)\<close> has one of three outcomes and
  no other: a reconstructed task, exactly when the tag is one of the nine known variants
  and the payload parses (the task then has the given id, the type of the tag, the
  state undefined and the parsed payload); \<open>ErrUnknownTaskType\<close>, exactly when the tag
  is not a known variant; \<open>ErrCorruptTask\<close>, exactly when the tag is known and the
  payload is malformed.
\<close>

theorem unmarshalTask_outcomes:
  "((\<exists>t. unmarshalTask dec ident b = Inr t) \<or>
    unmarshalTask dec ident b = Inl ErrUnknownTaskType \<or>
    unmarshalTask dec ident b = Inl ErrCorruptTask) \<and>
   ((\<exists>t. unmarshalTask dec ident b = Inr t) \<longleftrightarrow>
      tag b \<in> set task_variants \<and> dec (tag b) (body b) \<noteq> None) \<and>
   (\<forall>t. unmarshalTask dec ident b = Inr t \<longrightarrow>
      taskID t = ident \<and> msgType t = tag b \<and> state t = taskUndefined \<and>
      dec (tag b) (body b) = Some (payload t)) \<and>
   (unmarshalTask dec ident b = Inl ErrUnknownTaskType \<longleftrightarrow> tag b \<notin> set task_variants) \<and>
   (unmarshalTask dec ident b = Inl ErrCorruptTask \<longleftrightarrow>
      tag b \<in> set task_variants \<and> dec (tag b) (body b) = None)"
  by (auto simp: unmarshalTask_def split: option.splits)

theorem unmarshalTask_outcomes_witness:
  "unmarshalTask example_dec 1004 \<lparr> tag = LoadSegments, body = ''request'' \<rparr>
     = Inr \<lparr> taskID = 1004, msgType = LoadSegments, state = taskUndefined, payload = ''request'' \<rparr> \<and>
   unmarshalTask example_dec 1004 \<lparr> tag = OtherMsgType 0, body = ''request'' \<rparr>
     = Inl ErrUnknownTaskType \<and>
   unmarshalTask example_dec 1004 \<lparr> tag = LoadSegments, body = [] \<rparr> = Inl ErrCorruptTask"
proof -
  have t1: "tag \<lparr> tag = LoadSegments, body = ''request'' \<rparr> \<in> set task_variants"
    by (simp add: task_variants_def)
  have t2: "tag \<lparr> tag = OtherMsgType 0, body = ''request'' \<rparr> \<notin> set task_variants"
    by (simp add: task_variants_def)
  have t3: "tag \<lparr> tag = LoadSegments, body = [] \<rparr> \<in> set task_variants"
    by (simp add: task_variants_def)
  have d1: "example_dec (tag \<lparr> tag = LoadSegments, body = ''request'' \<rparr>)
              (body \<lparr> tag = LoadSegments, body = ''request'' \<rparr>) = Some ''request''"
    by (simp add: example_dec_def)
  have d2: "example_dec (tag \<lparr> tag = LoadSegments, body = [] \<rparr>)
              (body \<lparr> tag = LoadSegments, body = [] \<rparr>) = None"
    by (simp add: example_dec_def)
  have a: "unmarshalTask example_dec 1004 \<lparr> tag = LoadSegments, body = ''request'' \<rparr>
     = Inr \<lparr> taskID = 1004, msgType = LoadSegments, state = taskUndefined, payload = ''request'' \<rparr>"
    by (simp add: unmarshalTask_def task_variants_def example_dec_def)
  have b: "unmarshalTask example_dec 1004 \<lparr> tag = OtherMsgType 0, body = ''request'' \<rparr>
     = Inl ErrUnknownTaskType"
    using unmarshalTask_outcomes
            [of example_dec 1004 "\<lparr> tag = OtherMsgType 0, body = ''request'' \<rparr>"] t2
    by blast
  have c: "unmarshalTask example_dec 1004 \<lparr> tag = LoadSegments, body = [] \<rparr> = Inl ErrCorruptTask"
    using unmarshalTask_outcomes [of example_dec 1004 "\<lparr> tag = LoadSegments, body = [] \<rparr>"] t3 d2
    by blast
  from a b c show ?thesis by blast
qed

end
